theory Spec2Isabelle
  imports Complex_Main "HOL-Library.Sublist"
begin

section \<open>JavaScript numbers\<close>

text \<open>
  Every numeric value of the program is a JavaScript \<^verbatim>\<open>number\<close>. The model keeps the
  special values of IEEE 754 (the two infinities and NaN), because the program starts its
  bounds scan at \<^verbatim>\<open>Infinity\<close> and divides by widths that may be zero. Finite values
  are real numbers and arithmetic on them is exact: rounding, overflow to infinity and the
  sign of zero are not modelled (a zero is the positive zero).
\<close>

datatype jsnum = Fin real | PInf | NInf | NaN

fun js_neg :: "jsnum \<Rightarrow> jsnum" where
  "js_neg (Fin a) = Fin (- a)"
| "js_neg PInf = NInf"
| "js_neg NInf = PInf"
| "js_neg NaN = NaN"

fun js_add :: "jsnum \<Rightarrow> jsnum \<Rightarrow> jsnum" where
  "js_add (Fin a) (Fin b) = Fin (a + b)"
| "js_add NaN _ = NaN"
| "js_add _ NaN = NaN"
| "js_add PInf NInf = NaN"
| "js_add NInf PInf = NaN"
| "js_add PInf _ = PInf"
| "js_add _ PInf = PInf"
| "js_add NInf _ = NInf"
| "js_add _ NInf = NInf"

definition js_sub :: "jsnum \<Rightarrow> jsnum \<Rightarrow> jsnum" where
  "js_sub a b = js_add a (js_neg b)"

text \<open>The sign of a value (0 for a zero and for NaN) and the infinity of a given sign.\<close>

fun js_sign :: "jsnum \<Rightarrow> real" where
  "js_sign (Fin a) = sgn a"
| "js_sign PInf = 1"
| "js_sign NInf = - 1"
| "js_sign NaN = 0"

definition signed_inf :: "real \<Rightarrow> jsnum" where
  "signed_inf s = (if s = 0 then NaN else if 0 < s then PInf else NInf)"

fun js_mul :: "jsnum \<Rightarrow> jsnum \<Rightarrow> jsnum" where
  "js_mul (Fin a) (Fin b) = Fin (a * b)"
| "js_mul NaN _ = NaN"
| "js_mul _ NaN = NaN"
| "js_mul a b = signed_inf (js_sign a * js_sign b)"

text \<open>
  Division: a finite value over zero is an infinity of the dividend's sign (NaN for 0/0),
  a finite value over an infinity is zero, an infinity over a finite value keeps or flips
  its sign, and an infinity over an infinity is NaN. A zero divisor is read as the positive
  zero; for a negative zero the program's quotient is the infinity of the other sign, so
  nothing general is stated below about a division by zero.
\<close>

fun js_div :: "jsnum \<Rightarrow> jsnum \<Rightarrow> jsnum" where
  "js_div (Fin a) (Fin b) = (if b = 0 then signed_inf (sgn a) else Fin (a / b))"
| "js_div NaN _ = NaN"
| "js_div _ NaN = NaN"
| "js_div (Fin a) _ = Fin 0"
| "js_div PInf (Fin b) = (if b < 0 then NInf else PInf)"
| "js_div NInf (Fin b) = (if b < 0 then PInf else NInf)"
| "js_div _ _ = NaN"

text \<open>\<^verbatim>\<open>Math.min\<close> and \<^verbatim>\<open>Math.max\<close>: NaN when an argument is NaN.\<close>

fun js_min :: "jsnum \<Rightarrow> jsnum \<Rightarrow> jsnum" where
  "js_min (Fin a) (Fin b) = Fin (min a b)"
| "js_min NaN _ = NaN"
| "js_min _ NaN = NaN"
| "js_min NInf _ = NInf"
| "js_min _ NInf = NInf"
| "js_min PInf b = b"
| "js_min a PInf = a"

fun js_max :: "jsnum \<Rightarrow> jsnum \<Rightarrow> jsnum" where
  "js_max (Fin a) (Fin b) = Fin (max a b)"
| "js_max NaN _ = NaN"
| "js_max _ NaN = NaN"
| "js_max PInf _ = PInf"
| "js_max _ PInf = PInf"
| "js_max NInf b = b"
| "js_max a NInf = a"

text \<open>The comparison \<^verbatim>\<open><=\<close>: false when an operand is NaN.\<close>

fun js_le :: "jsnum \<Rightarrow> jsnum \<Rightarrow> bool" where
  "js_le (Fin a) (Fin b) = (a \<le> b)"
| "js_le NaN _ = False"
| "js_le _ NaN = False"
| "js_le NInf _ = True"
| "js_le _ PInf = True"
| "js_le _ _ = False"

text \<open>\<^verbatim>\<open>Number.isFinite\<close>: neither an infinity nor NaN.\<close>

definition js_finite :: "jsnum \<Rightarrow> bool" where
  "js_finite a = (case a of Fin _ \<Rightarrow> True | _ \<Rightarrow> False)"

section \<open>Minimap: data\<close>

text \<open>
  The interface \<^verbatim>\<open>Rect\<close> and the object literals \<^verbatim>\<open>{x, y}\<close> and
  \<^verbatim>\<open>{x, y, scale}\<close>. The fields carry a prefix, since a record field is a constant
  and \<open>x\<close> and \<open>y\<close> are wanted as variables.
\<close>

record rect =
  rect_x :: jsnum
  rect_y :: jsnum
  rect_width :: jsnum
  rect_height :: jsnum

record point =
  point_x :: jsnum
  point_y :: jsnum

record minimapPos =
  pos_x :: jsnum
  pos_y :: jsnum
  pos_scale :: jsnum

definition MINIMAP_WIDTH :: jsnum where
  "MINIMAP_WIDTH = Fin 200"

definition MINIMAP_HEIGHT :: jsnum where
  "MINIMAP_HEIGHT = Fin 150"

section \<open>Minimap: coordinate transform\<close>

text \<open>
  The callbacks close over \<^verbatim>\<open>contentBounds\<close> and \<^verbatim>\<open>minimapZoom\<close> (their
  dependency lists); here these are the first two arguments, \<open>bounds\<close> and
  \<open>minimapZoom\<close>.
\<close>

definition worldToMinimap :: "rect \<Rightarrow> jsnum \<Rightarrow> jsnum \<Rightarrow> jsnum \<Rightarrow> minimapPos" where
  "worldToMinimap bounds minimapZoom worldX worldY =
     (let fitScale = js_mul (js_min (js_div MINIMAP_WIDTH (rect_width bounds))
                                    (js_div MINIMAP_HEIGHT (rect_height bounds)))
                            minimapZoom;
          scaledWidth = js_mul (rect_width bounds) fitScale;
          scaledHeight = js_mul (rect_height bounds) fitScale;
          offsetX = js_div (js_sub MINIMAP_WIDTH scaledWidth) (Fin 2);
          offsetY = js_div (js_sub MINIMAP_HEIGHT scaledHeight) (Fin 2)
      in \<lparr> pos_x = js_add (js_mul (js_sub worldX (rect_x bounds)) fitScale) offsetX,
           pos_y = js_add (js_mul (js_sub worldY (rect_y bounds)) fitScale) offsetY,
           pos_scale = fitScale \<rparr>)"

definition minimapToWorld :: "rect \<Rightarrow> jsnum \<Rightarrow> jsnum \<Rightarrow> jsnum \<Rightarrow> point" where
  "minimapToWorld bounds minimapZoom minimapX minimapY =
     (let fitScale = js_mul (js_min (js_div MINIMAP_WIDTH (rect_width bounds))
                                    (js_div MINIMAP_HEIGHT (rect_height bounds)))
                            minimapZoom;
          scaledWidth = js_mul (rect_width bounds) fitScale;
          scaledHeight = js_mul (rect_height bounds) fitScale;
          offsetX = js_div (js_sub MINIMAP_WIDTH scaledWidth) (Fin 2);
          offsetY = js_div (js_sub MINIMAP_HEIGHT scaledHeight) (Fin 2)
      in \<lparr> point_x = js_add (js_div (js_sub minimapX offsetX) fitScale) (rect_x bounds),
           point_y = js_add (js_div (js_sub minimapY offsetY) fitScale) (rect_y bounds) \<rparr>)"

section \<open>Minimap: layers, viewport and content bounds\<close>

text \<open>
  Modelled from the spec: the type \<^verbatim>\<open>LayerData\<close> is declared in
  \<^verbatim>\<open>../types\<close>, which is not among the sources. The record has the fields that
  the minimap reads, as the spec's LayerSummary lists them; the type tag is the string that
  the code compares with \<^verbatim>\<open>'group'\<close>.
\<close>

record layerData =
  layer_id :: string
  layer_type :: string
  layer_x :: jsnum
  layer_y :: jsnum
  layer_width :: jsnum
  layer_height :: jsnum

text \<open>
  \<^verbatim>\<open>getViewportInWorld\<close> closes over the props \<^verbatim>\<open>canvasOffset\<close> and
  \<^verbatim>\<open>scale\<close> and reads \<^verbatim>\<open>window.innerWidth\<close> and
  \<^verbatim>\<open>window.innerHeight\<close>.
\<close>

definition getViewportInWorld :: "point \<Rightarrow> jsnum \<Rightarrow> jsnum \<Rightarrow> jsnum \<Rightarrow> rect" where
  "getViewportInWorld canvasOffset scale innerWidth innerHeight =
     \<lparr> rect_x = js_div (js_neg (point_x canvasOffset)) scale,
       rect_y = js_div (js_neg (point_y canvasOffset)) scale,
       rect_width = js_div innerWidth scale,
       rect_height = js_div innerHeight scale \<rparr>"

text \<open>One round of the \<^verbatim>\<open>forEach\<close> over the layers, on (minX, minY, maxX, maxY).\<close>

definition include_layer ::
  "jsnum \<times> jsnum \<times> jsnum \<times> jsnum \<Rightarrow> layerData \<Rightarrow> jsnum \<times> jsnum \<times> jsnum \<times> jsnum" where
  "include_layer acc layer =
     (case acc of (minX, minY, maxX, maxY) \<Rightarrow>
        (js_min minX (layer_x layer),
         js_min minY (layer_y layer),
         js_max maxX (js_add (layer_x layer) (layer_width layer)),
         js_max maxY (js_add (layer_y layer) (layer_height layer))))"

text \<open>
  \<^verbatim>\<open>contentBounds\<close>; the second argument is the value of the call
  \<^verbatim>\<open>getViewportInWorld()\<close> that opens the memo.
\<close>

definition contentBounds :: "layerData list \<Rightarrow> rect \<Rightarrow> rect" where
  "contentBounds layers viewport =
     (if length layers = 0 then
        (let padding = js_mul (js_max (rect_width viewport) (rect_height viewport)) (Fin (1 / 10))
         in \<lparr> rect_x = js_sub (rect_x viewport) padding,
              rect_y = js_sub (rect_y viewport) padding,
              rect_width = js_add (rect_width viewport) (js_mul padding (Fin 2)),
              rect_height = js_add (rect_height viewport) (js_mul padding (Fin 2)) \<rparr>)
      else
        (case foldl include_layer (PInf, PInf, js_neg PInf, js_neg PInf) layers of
           (minX0, minY0, maxX0, maxY0) \<Rightarrow>
             (let minX = js_min minX0 (rect_x viewport);
                  minY = js_min minY0 (rect_y viewport);
                  maxX = js_max maxX0 (js_add (rect_x viewport) (rect_width viewport));
                  maxY = js_max maxY0 (js_add (rect_y viewport) (rect_height viewport));
                  contentWidth = js_sub maxX minX;
                  contentHeight = js_sub maxY minY;
                  padding = js_mul (js_max contentWidth contentHeight) (Fin (1 / 10))
              in \<lparr> rect_x = js_sub minX padding,
                   rect_y = js_sub minY padding,
                   rect_width = js_add contentWidth (js_mul padding (Fin 2)),
                   rect_height = js_add contentHeight (js_mul padding (Fin 2)) \<rparr>)))"

text \<open>
  \<^verbatim>\<open>viewportRect\<close>: the marker of the viewport in minimap coordinates. The first
  argument is again the value of \<^verbatim>\<open>getViewportInWorld()\<close>.
\<close>

definition viewportRect :: "rect \<Rightarrow> rect \<Rightarrow> jsnum \<Rightarrow> rect" where
  "viewportRect viewport bounds minimapZoom =
     (let topLeft = worldToMinimap bounds minimapZoom (rect_x viewport) (rect_y viewport)
      in \<lparr> rect_x = pos_x topLeft,
           rect_y = pos_y topLeft,
           rect_width = js_mul (rect_width viewport) (pos_scale topLeft),
           rect_height = js_mul (rect_height viewport) (pos_scale topLeft) \<rparr>)"

section \<open>Minimap: pointer and wheel handlers\<close>

text \<open>
  A mouse event carries the client position; \<^verbatim>\<open>containerRef.current?.getBoundingClientRect()\<close>
  is \<open>None\<close> when the container is not mounted, else the left and top of the widget.
  The state of a drag is the flag \<^verbatim>\<open>isDraggingViewport\<close> and the reference
  \<^verbatim>\<open>dragOffsetRef\<close>. A handler that calls \<^verbatim>\<open>onViewportChange\<close> returns the
  list of the offsets it was called with.
\<close>

record mouseEvent =
  clientX :: jsnum
  clientY :: jsnum

record domRect =
  dom_left :: jsnum
  dom_top :: jsnum

record dragState =
  isDraggingViewport :: bool
  dragOffsetRef :: point

definition initial_dragState :: dragState where
  "initial_dragState = \<lparr> isDraggingViewport = False,
                         dragOffsetRef = \<lparr>point_x = Fin 0, point_y = Fin 0\<rparr> \<rparr>"

definition handleMinimapClick ::
  "bool \<Rightarrow> domRect option \<Rightarrow> rect \<Rightarrow> jsnum \<Rightarrow> jsnum \<Rightarrow> jsnum \<Rightarrow> jsnum \<Rightarrow> mouseEvent \<Rightarrow> point list" where
  "handleMinimapClick dragging container bounds minimapZoom scale innerWidth innerHeight e =
     (if dragging then []
      else case container of
        None \<Rightarrow> []
      | Some r \<Rightarrow>
          (let minimapX = js_sub (clientX e) (dom_left r);
               minimapY = js_sub (clientY e) (dom_top r);
               worldPos = minimapToWorld bounds minimapZoom minimapX minimapY;
               newOffset = \<lparr> point_x = js_sub (js_div innerWidth (Fin 2)) (js_mul (point_x worldPos) scale),
                             point_y = js_sub (js_div innerHeight (Fin 2)) (js_mul (point_y worldPos) scale) \<rparr>
           in [newOffset]))"

definition handleViewportMouseDown :: "dragState \<Rightarrow> domRect option \<Rightarrow> rect \<Rightarrow> mouseEvent \<Rightarrow> dragState" where
  "handleViewportMouseDown st container vRect e =
     (let st1 = st\<lparr>isDraggingViewport := True\<rparr>
      in case container of
        None \<Rightarrow> st1
      | Some r \<Rightarrow>
          (let viewportCenterX = js_add (rect_x vRect) (js_div (rect_width vRect) (Fin 2));
               viewportCenterY = js_add (rect_y vRect) (js_div (rect_height vRect) (Fin 2))
           in st1\<lparr>dragOffsetRef :=
                \<lparr> point_x = js_sub (js_sub (clientX e) (dom_left r)) viewportCenterX,
                  point_y = js_sub (js_sub (clientY e) (dom_top r)) viewportCenterY \<rparr>\<rparr>))"

definition handleMouseMove ::
  "dragState \<Rightarrow> domRect option \<Rightarrow> rect \<Rightarrow> jsnum \<Rightarrow> jsnum \<Rightarrow> jsnum \<Rightarrow> jsnum \<Rightarrow> mouseEvent \<Rightarrow> point list" where
  "handleMouseMove st container bounds minimapZoom scale innerWidth innerHeight e =
     (if \<not> isDraggingViewport st then []
      else case container of
        None \<Rightarrow> []
      | Some r \<Rightarrow>
          (let minimapX = js_sub (js_sub (clientX e) (dom_left r)) (point_x (dragOffsetRef st));
               minimapY = js_sub (js_sub (clientY e) (dom_top r)) (point_y (dragOffsetRef st));
               worldCenter = minimapToWorld bounds minimapZoom minimapX minimapY;
               newOffset = \<lparr> point_x = js_sub (js_div innerWidth (Fin 2)) (js_mul (point_x worldCenter) scale),
                             point_y = js_sub (js_div innerHeight (Fin 2)) (js_mul (point_y worldCenter) scale) \<rparr>
           in [newOffset]))"

definition handleMouseUp :: "dragState \<Rightarrow> dragState" where
  "handleMouseUp st = st\<lparr>isDraggingViewport := False\<rparr>"

text \<open>
  The wheel handler is the state update \<^verbatim>\<open>prev => ...\<close> of \<^verbatim>\<open>minimapZoom\<close>,
  whose initial value is 1; \<open>wheel_events\<close> is the zoom after a sequence of wheel events,
  given by their \<^verbatim>\<open>deltaY\<close>.
\<close>

definition initial_minimapZoom :: jsnum where
  "initial_minimapZoom = Fin 1"

definition handleWheel :: "jsnum \<Rightarrow> jsnum \<Rightarrow> jsnum" where
  "handleWheel deltaY prev =
     (let zoomDelta = js_mul (js_neg deltaY) (Fin (2 / 1000))
      in js_min (js_max (js_add prev zoomDelta) (Fin (1 / 2))) (Fin 3))"

definition wheel_events :: "jsnum list \<Rightarrow> jsnum" where
  "wheel_events deltas = foldl (\<lambda>zoom deltaY. handleWheel deltaY zoom) initial_minimapZoom deltas"

section \<open>Minimap: render order\<close>

text \<open>
  \<^verbatim>\<open>Array.prototype.sort\<close> with a comparison function is a stable sort (ECMAScript 2019):
  elements that compare equal keep their order. It is modelled by insertion: each element in
  turn goes in front of the first element placed so far that it compares below.
\<close>

fun insert_sorted :: "('a \<Rightarrow> 'a \<Rightarrow> int) \<Rightarrow> 'a \<Rightarrow> 'a list \<Rightarrow> 'a list" where
  "insert_sorted cmp v [] = [v]"
| "insert_sorted cmp v (u # us) =
     (if cmp v u < 0 then v # u # us else u # insert_sorted cmp v us)"

definition array_sort :: "('a \<Rightarrow> 'a \<Rightarrow> int) \<Rightarrow> 'a list \<Rightarrow> 'a list" where
  "array_sort cmp xs = foldl (\<lambda>placed v. insert_sorted cmp v placed) [] xs"

text \<open>The comparison function of \<^verbatim>\<open>sortedLayers\<close>, and the memo itself.\<close>

definition compareLayers :: "string option \<Rightarrow> layerData \<Rightarrow> layerData \<Rightarrow> int" where
  "compareLayers selectedLayerId a b =
     (if layer_type a = ''group'' \<and> layer_type b \<noteq> ''group'' then - 1
      else if layer_type b = ''group'' \<and> layer_type a \<noteq> ''group'' then 1
      else if Some (layer_id a) = selectedLayerId then 1
      else if Some (layer_id b) = selectedLayerId then - 1
      else 0)"

definition sortedLayers :: "layerData list \<Rightarrow> string option \<Rightarrow> layerData list" where
  "sortedLayers layers selectedLayerId = array_sort (compareLayers selectedLayerId) layers"

section \<open>Storage: saving the history\<close>

text \<open>
  \<^verbatim>\<open>Array.prototype.slice(start)\<close>: a negative start counts from the end, and the
  start is clamped to the array.
\<close>

definition array_slice :: "int \<Rightarrow> 'a list \<Rightarrow> 'a list" where
  "array_slice start xs =
     (let len = int (length xs);
          k = (if start < 0 then max (len + start) 0 else min start len)
      in drop (nat k) xs)"

definition MAX_HISTORY_STATES :: int where
  "MAX_HISTORY_STATES = 20"

text \<open>
  The object store \<^verbatim>\<open>canvasState\<close> maps a key to the stored object. Opening the
  database may fail (the \<^verbatim>\<open>catch\<close> logs and the promise resolves), and the transaction
  may fail (the promise rejects); in both cases nothing is stored.
\<close>

datatype stored = ViewState point jsnum | History "layerData list list" jsnum

datatype db_outcome = OpenFailed | TxFailed | TxComplete

datatype promise_result = Resolved | Rejected

definition saveHistory ::
  "db_outcome \<Rightarrow> (string \<rightharpoonup> stored) \<Rightarrow> layerData list list \<Rightarrow> jsnum \<Rightarrow> promise_result \<times> (string \<rightharpoonup> stored)" where
  "saveHistory db store history historyIndex =
     (case db of
        OpenFailed \<Rightarrow> (Resolved, store)
      | _ \<Rightarrow>
          (let trimmedHistory = array_slice (- MAX_HISTORY_STATES) history;
               adjustedIndex = js_max (Fin 0)
                 (js_sub historyIndex
                    (js_sub (Fin (real (length history))) (Fin (real (length trimmedHistory)))))
           in case db of
                TxComplete \<Rightarrow> (Resolved, store(''history'' \<mapsto> History trimmedHistory adjustedIndex))
              | _ \<Rightarrow> (Rejected, store)))"

section \<open>Thumbnails\<close>

text \<open>
  The size at which \<^verbatim>\<open>generateThumbnail\<close> draws the image: the local variables
  \<^verbatim>\<open>width\<close> and \<^verbatim>\<open>height\<close> after the branch. The natural size of an image is
  a pair of unsigned integers. The promise rejects when the image does not load or the canvas
  gives no 2D context; the data URL it resolves with is not modelled, the drawn size stands
  for it.
\<close>

definition THUMBNAIL_SIZE :: jsnum where
  "THUMBNAIL_SIZE = Fin 256"

record image =
  naturalWidth :: nat
  naturalHeight :: nat

definition thumbnail_size :: "image \<Rightarrow> jsnum \<times> jsnum" where
  "thumbnail_size img =
     (if naturalWidth img > naturalHeight img then
        (THUMBNAIL_SIZE,
         js_mul (js_div (Fin (real (naturalHeight img))) (Fin (real (naturalWidth img)))) THUMBNAIL_SIZE)
      else
        (js_mul (js_div (Fin (real (naturalWidth img))) (Fin (real (naturalHeight img)))) THUMBNAIL_SIZE,
         THUMBNAIL_SIZE))"

datatype thumbnail_error = ImageLoadFailed | NoCanvasContext

definition generateThumbnail :: "image option \<Rightarrow> bool \<Rightarrow> thumbnail_error + jsnum \<times> jsnum" where
  "generateThumbnail loaded has_context =
     (case loaded of
        None \<Rightarrow> Inl ImageLoadFailed
      | Some img \<Rightarrow> if \<not> has_context then Inl NoCanvasContext else Inr (thumbnail_size img))"

section \<open>Notions used in the statements\<close>

text \<open>The scale of the fit, in real numbers, for bounds of positive extent.\<close>

definition fit :: "real \<Rightarrow> real \<Rightarrow> real \<Rightarrow> real" where
  "fit bw bh z = min (200 / bw) (150 / bh) * z"

text \<open>A point lies in a rectangle: within [x, x + width] and [y, y + height].\<close>

definition rect_contains :: "rect \<Rightarrow> jsnum \<Rightarrow> jsnum \<Rightarrow> bool" where
  "rect_contains r px py =
     (js_le (rect_x r) px \<and> js_le px (js_add (rect_x r) (rect_width r)) \<and>
      js_le (rect_y r) py \<and> js_le py (js_add (rect_y r) (rect_height r)))"

definition layer_rect :: "layerData \<Rightarrow> rect" where
  "layer_rect l = \<lparr> rect_x = layer_x l, rect_y = layer_y l,
                    rect_width = layer_width l, rect_height = layer_height l \<rparr>"

definition finite_rect :: "rect \<Rightarrow> bool" where
  "finite_rect r = (js_finite (rect_x r) \<and> js_finite (rect_y r) \<and>
                    js_finite (rect_width r) \<and> js_finite (rect_height r))"

text \<open>The centre of a rectangle, as the drag handler computes it for the marker.\<close>

definition rect_center :: "rect \<Rightarrow> point" where
  "rect_center r = \<lparr> point_x = js_add (rect_x r) (js_div (rect_width r) (Fin 2)),
                     point_y = js_add (rect_y r) (js_div (rect_height r) (Fin 2)) \<rparr>"

text \<open>The layers that are groups, and the layers that are selected.\<close>

definition is_group :: "layerData \<Rightarrow> bool" where
  "is_group l = (layer_type l = ''group'')"

definition is_selected :: "string option \<Rightarrow> layerData \<Rightarrow> bool" where
  "is_selected selectedLayerId l = (Some (layer_id l) = selectedLayerId)"

text \<open>
  The place of a layer in the render order, as the comparison function ranks it: groups
  below the other layers, and within each of the two kinds the selected layer above the rest.
\<close>

definition rank :: "string option \<Rightarrow> layerData \<Rightarrow> nat" where
  "rank sel l = (if is_group l then 0 else 2) + (if is_selected sel l then 1 else 0)"

section \<open>Properties of the coordinate transform\<close>

lemma fit_pos: "0 < bw \<Longrightarrow> 0 < bh \<Longrightarrow> 0 < z \<Longrightarrow> 0 < fit bw bh z"
  by (simp add: fit_def)

lemma worldToMinimap_fin:
  assumes "0 < bw" "0 < bh"
  shows "worldToMinimap \<lparr>rect_x = Fin ox, rect_y = Fin oy, rect_width = Fin bw, rect_height = Fin bh\<rparr>
           (Fin z) (Fin wx) (Fin wy) =
         \<lparr> pos_x = Fin ((wx - ox) * fit bw bh z + (200 - bw * fit bw bh z) / 2),
           pos_y = Fin ((wy - oy) * fit bw bh z + (150 - bh * fit bw bh z) / 2),
           pos_scale = Fin (fit bw bh z) \<rparr>"
  using assms
  by (simp add: worldToMinimap_def MINIMAP_WIDTH_def MINIMAP_HEIGHT_def js_sub_def fit_def Let_def)

lemma minimapToWorld_fin:
  assumes "0 < bw" "0 < bh" "0 < z"
  shows "minimapToWorld \<lparr>rect_x = Fin ox, rect_y = Fin oy, rect_width = Fin bw, rect_height = Fin bh\<rparr>
           (Fin z) (Fin mx) (Fin my) =
         \<lparr> point_x = Fin ((mx - (200 - bw * fit bw bh z) / 2) / fit bw bh z + ox),
           point_y = Fin ((my - (150 - bh * fit bw bh z) / 2) / fit bw bh z + oy) \<rparr>"
proof -
  have "fit bw bh z \<noteq> 0"
    using fit_pos [OF assms] by simp
  then have "min (200 / bw) (150 / bh) * z \<noteq> 0"
    by (simp add: fit_def)
  with assms show ?thesis
    by (simp add: minimapToWorld_def MINIMAP_WIDTH_def MINIMAP_HEIGHT_def js_sub_def fit_def Let_def)
qed

text \<open>
  C1. Round trip: for bounds of strictly positive width and height and a zoom in [0.5, 3],
  sending a world point to the minimap and back returns the point. In the exact arithmetic
  of the model the result is the point itself; what the program adds is rounding only.
\<close>

theorem round_trip:
  assumes "0 < bw" and "0 < bh" and "1 / 2 \<le> z" and "z \<le> 3"
    and "b = \<lparr>rect_x = Fin ox, rect_y = Fin oy, rect_width = Fin bw, rect_height = Fin bh\<rparr>"
    and "m = worldToMinimap b (Fin z) (Fin wx) (Fin wy)"
  shows "minimapToWorld b (Fin z) (pos_x m) (pos_y m) = \<lparr>point_x = Fin wx, point_y = Fin wy\<rparr>"
proof -
  have z: "0 < z" using assms(3) by simp
  have f: "fit bw bh z \<noteq> 0"
    using fit_pos [OF assms(1,2) z] by simp
  show ?thesis
    using f by (simp add: assms(5,6) worldToMinimap_fin [OF assms(1,2)]
        minimapToWorld_fin [OF assms(1,2) z])
qed

theorem round_trip_witness:
  "minimapToWorld \<lparr>rect_x = Fin 0, rect_y = Fin 0, rect_width = Fin 400, rect_height = Fin 300\<rparr> (Fin 1)
     (pos_x (worldToMinimap \<lparr>rect_x = Fin 0, rect_y = Fin 0, rect_width = Fin 400, rect_height = Fin 300\<rparr>
        (Fin 1) (Fin 10) (Fin 20)))
     (pos_y (worldToMinimap \<lparr>rect_x = Fin 0, rect_y = Fin 0, rect_width = Fin 400, rect_height = Fin 300\<rparr>
        (Fin 1) (Fin 10) (Fin 20)))
   = \<lparr>point_x = Fin 10, point_y = Fin 20\<rparr>
   \<and> pos_x (worldToMinimap \<lparr>rect_x = Fin 0, rect_y = Fin 0, rect_width = Fin 400, rect_height = Fin 300\<rparr>
        (Fin 1) (Fin 10) (Fin 20)) = Fin 5"
proof -
  have "minimapToWorld \<lparr>rect_x = Fin 0, rect_y = Fin 0, rect_width = Fin 400, rect_height = Fin 300\<rparr> (Fin 1)
     (pos_x (worldToMinimap \<lparr>rect_x = Fin 0, rect_y = Fin 0, rect_width = Fin 400, rect_height = Fin 300\<rparr>
        (Fin 1) (Fin 10) (Fin 20)))
     (pos_y (worldToMinimap \<lparr>rect_x = Fin 0, rect_y = Fin 0, rect_width = Fin 400, rect_height = Fin 300\<rparr>
        (Fin 1) (Fin 10) (Fin 20)))
   = \<lparr>point_x = Fin 10, point_y = Fin 20\<rparr>"
    by (rule round_trip [where bw = 400 and bh = 300 and z = 1 and ox = 0 and oy = 0]) simp_all
  moreover have "pos_x (worldToMinimap \<lparr>rect_x = Fin 0, rect_y = Fin 0, rect_width = Fin 400, rect_height = Fin 300\<rparr>
        (Fin 1) (Fin 10) (Fin 20)) = Fin 5"
    by (simp add: worldToMinimap_def MINIMAP_WIDTH_def MINIMAP_HEIGHT_def js_sub_def Let_def)
  ultimately show ?thesis by simp
qed

lemma js_finite_iff: "js_finite a \<longleftrightarrow> (\<exists>r. a = Fin r)"
  by (cases a) (simp_all add: js_finite_def)




section \<open>Properties of the content bounds\<close>

text \<open>
  C7. With no layers the bounds are the viewport rectangle grown on every side by a padding
  of 0.1 times the larger of the viewport's width and height: x and y move down by the
  padding, width and height grow by twice the padding.
\<close>

theorem empty_layers_bounds:
  "contentBounds [] \<lparr>rect_x = Fin vx, rect_y = Fin vy, rect_width = Fin vw, rect_height = Fin vh\<rparr> =
     \<lparr> rect_x = Fin (vx - 0.1 * max vw vh),
       rect_y = Fin (vy - 0.1 * max vw vh),
       rect_width = Fin (vw + 2 * (0.1 * max vw vh)),
       rect_height = Fin (vh + 2 * (0.1 * max vw vh)) \<rparr>"
  by (simp add: contentBounds_def js_sub_def Let_def)

lemma js_le_trans: "js_le a b \<Longrightarrow> js_le b c \<Longrightarrow> js_le a c"
  by (cases a; cases b; cases c) simp_all

lemma js_min_lower:
  assumes "a = PInf \<or> js_finite a" and "js_finite v"
  shows "js_finite (js_min a v) \<and> js_le (js_min a v) a \<and> js_le (js_min a v) v"
  using assms by (cases a; cases v) (simp_all add: js_finite_def)

lemma js_max_upper:
  assumes "a = NInf \<or> js_finite a" and "js_finite v"
  shows "js_finite (js_max a v) \<and> js_le a (js_max a v) \<and> js_le v (js_max a v)"
  using assms by (cases a; cases v) (simp_all add: js_finite_def)

lemma scan_min:
  assumes "\<forall>v\<in>set vs. js_finite v" and "a = PInf \<or> js_finite a"
  shows "(foldl js_min a vs = PInf \<or> js_finite (foldl js_min a vs)) \<and>
         js_le (foldl js_min a vs) a \<and> (\<forall>v\<in>set vs. js_le (foldl js_min a vs) v)"
  using assms
proof (induction vs arbitrary: a)
  case Nil
  then show ?case by (cases a) (simp_all add: js_finite_def)
next
  case (Cons v vs)
  have v: "js_finite v" using Cons.prems(1) by simp
  note step = js_min_lower [OF Cons.prems(2) v]
  have ih: "(foldl js_min (js_min a v) vs = PInf \<or> js_finite (foldl js_min (js_min a v) vs)) \<and>
         js_le (foldl js_min (js_min a v) vs) (js_min a v) \<and>
         (\<forall>u\<in>set vs. js_le (foldl js_min (js_min a v) vs) u)"
    using Cons.IH [of "js_min a v"] Cons.prems(1) step by simp
  then show ?case
    using step by (auto intro: js_le_trans)
qed

lemma scan_max:
  assumes "\<forall>v\<in>set vs. js_finite v" and "a = NInf \<or> js_finite a"
  shows "(foldl js_max a vs = NInf \<or> js_finite (foldl js_max a vs)) \<and>
         js_le a (foldl js_max a vs) \<and> (\<forall>v\<in>set vs. js_le v (foldl js_max a vs))"
  using assms
proof (induction vs arbitrary: a)
  case Nil
  then show ?case by (cases a) (simp_all add: js_finite_def)
next
  case (Cons v vs)
  have v: "js_finite v" using Cons.prems(1) by simp
  note step = js_max_upper [OF Cons.prems(2) v]
  have ih: "(foldl js_max (js_max a v) vs = NInf \<or> js_finite (foldl js_max (js_max a v) vs)) \<and>
         js_le (js_max a v) (foldl js_max (js_max a v) vs) \<and>
         (\<forall>u\<in>set vs. js_le u (foldl js_max (js_max a v) vs))"
    using Cons.IH [of "js_max a v"] Cons.prems(1) step by simp
  then show ?case
    using step by (auto intro: js_le_trans)
qed

lemma foldl_include_layer:
  "foldl include_layer (a, b, c, d) ls =
     (foldl js_min a (map layer_x ls),
      foldl js_min b (map layer_y ls),
      foldl js_max c (map (\<lambda>l. js_add (layer_x l) (layer_width l)) ls),
      foldl js_max d (map (\<lambda>l. js_add (layer_y l) (layer_height l)) ls))"
  by (induction ls arbitrary: a b c d) (simp_all add: include_layer_def)

lemma js_add_finite: "js_finite a \<Longrightarrow> js_finite b \<Longrightarrow> js_finite (js_add a b)"
  by (auto simp: js_finite_iff)

text \<open>
  With at least one layer and finite inputs, the extent after the scan and the viewport is
  given by four real numbers that bound every layer and the viewport.
\<close>

lemma contentBounds_fin:
  assumes fin: "\<forall>l\<in>set layers. finite_rect (layer_rect l)"
    and v: "viewport = \<lparr>rect_x = Fin vx, rect_y = Fin vy, rect_width = Fin vw, rect_height = Fin vh\<rparr>"
    and ne: "layers \<noteq> []"
  shows "\<exists>a b c d.
           contentBounds layers viewport =
             \<lparr> rect_x = Fin (a - 0.1 * max (c - a) (d - b)),
               rect_y = Fin (b - 0.1 * max (c - a) (d - b)),
               rect_width = Fin (c - a + 2 * (0.1 * max (c - a) (d - b))),
               rect_height = Fin (d - b + 2 * (0.1 * max (c - a) (d - b))) \<rparr> \<and>
           a \<le> vx \<and> b \<le> vy \<and> vx + vw \<le> c \<and> vy + vh \<le> d \<and>
           (\<forall>l\<in>set layers. js_le (Fin a) (layer_x l) \<and> js_le (Fin b) (layer_y l) \<and>
              js_le (js_add (layer_x l) (layer_width l)) (Fin c) \<and>
              js_le (js_add (layer_y l) (layer_height l)) (Fin d))"
proof -
  let ?xs = "map layer_x layers" and ?ys = "map layer_y layers"
  let ?rs = "map (\<lambda>l. js_add (layer_x l) (layer_width l)) layers"
  let ?bs = "map (\<lambda>l. js_add (layer_y l) (layer_height l)) layers"
  have fx: "\<forall>u\<in>set ?xs. js_finite u" and fy: "\<forall>u\<in>set ?ys. js_finite u"
    and fr: "\<forall>u\<in>set ?rs. js_finite u" and fb: "\<forall>u\<in>set ?bs. js_finite u"
    using fin by (auto simp: finite_rect_def layer_rect_def intro: js_add_finite)
  note sx = scan_min [OF fx, of PInf, simplified]
  note sy = scan_min [OF fy, of PInf, simplified]
  note sr = scan_max [OF fr, of NInf, simplified]
  note sb = scan_max [OF fb, of NInf, simplified]
  have mx: "js_finite (js_min (foldl js_min PInf ?xs) (Fin vx))"
      "js_le (js_min (foldl js_min PInf ?xs) (Fin vx)) (foldl js_min PInf ?xs)"
      "js_le (js_min (foldl js_min PInf ?xs) (Fin vx)) (Fin vx)"
    using js_min_lower [of "foldl js_min PInf ?xs" "Fin vx"] sx by (simp_all add: js_finite_def)
  have my: "js_finite (js_min (foldl js_min PInf ?ys) (Fin vy))"
      "js_le (js_min (foldl js_min PInf ?ys) (Fin vy)) (foldl js_min PInf ?ys)"
      "js_le (js_min (foldl js_min PInf ?ys) (Fin vy)) (Fin vy)"
    using js_min_lower [of "foldl js_min PInf ?ys" "Fin vy"] sy by (simp_all add: js_finite_def)
  have mr: "js_finite (js_max (foldl js_max NInf ?rs) (Fin (vx + vw)))"
      "js_le (foldl js_max NInf ?rs) (js_max (foldl js_max NInf ?rs) (Fin (vx + vw)))"
      "js_le (Fin (vx + vw)) (js_max (foldl js_max NInf ?rs) (Fin (vx + vw)))"
    using js_max_upper [of "foldl js_max NInf ?rs" "Fin (vx + vw)"] sr by (simp_all add: js_finite_def)
  have mb: "js_finite (js_max (foldl js_max NInf ?bs) (Fin (vy + vh)))"
      "js_le (foldl js_max NInf ?bs) (js_max (foldl js_max NInf ?bs) (Fin (vy + vh)))"
      "js_le (Fin (vy + vh)) (js_max (foldl js_max NInf ?bs) (Fin (vy + vh)))"
    using js_max_upper [of "foldl js_max NInf ?bs" "Fin (vy + vh)"] sb by (simp_all add: js_finite_def)
  obtain a where a: "js_min (foldl js_min PInf ?xs) (Fin vx) = Fin a"
    using mx(1) by (auto simp: js_finite_iff)
  obtain b where b: "js_min (foldl js_min PInf ?ys) (Fin vy) = Fin b"
    using my(1) by (auto simp: js_finite_iff)
  obtain c where c: "js_max (foldl js_max NInf ?rs) (Fin (vx + vw)) = Fin c"
    using mr(1) by (auto simp: js_finite_iff)
  obtain d where d: "js_max (foldl js_max NInf ?bs) (Fin (vy + vh)) = Fin d"
    using mb(1) by (auto simp: js_finite_iff)
  have cb: "contentBounds layers viewport =
             \<lparr> rect_x = Fin (a - 0.1 * max (c - a) (d - b)),
               rect_y = Fin (b - 0.1 * max (c - a) (d - b)),
               rect_width = Fin (c - a + 2 * (0.1 * max (c - a) (d - b))),
               rect_height = Fin (d - b + 2 * (0.1 * max (c - a) (d - b))) \<rparr>"
    using ne by (simp add: contentBounds_def foldl_include_layer v a b c d js_sub_def Let_def)
  have vp: "a \<le> vx" "b \<le> vy" "vx + vw \<le> c" "vy + vh \<le> d"
    using mx(3) my(3) mr(3) mb(3) by (simp_all add: a b c d)
  have ls: "\<forall>l\<in>set layers. js_le (Fin a) (layer_x l) \<and> js_le (Fin b) (layer_y l) \<and>
              js_le (js_add (layer_x l) (layer_width l)) (Fin c) \<and>
              js_le (js_add (layer_y l) (layer_height l)) (Fin d)"
  proof
    fix l assume l: "l \<in> set layers"
    have "js_le (foldl js_min PInf ?xs) (layer_x l)" using sx l by simp
    then have 1: "js_le (Fin a) (layer_x l)" using mx(2) a js_le_trans by metis
    have "js_le (foldl js_min PInf ?ys) (layer_y l)" using sy l by simp
    then have 2: "js_le (Fin b) (layer_y l)" using my(2) b js_le_trans by metis
    have "js_le (js_add (layer_x l) (layer_width l)) (foldl js_max NInf ?rs)" using sr l by simp
    then have 3: "js_le (js_add (layer_x l) (layer_width l)) (Fin c)" using mr(2) c js_le_trans by metis
    have "js_le (js_add (layer_y l) (layer_height l)) (foldl js_max NInf ?bs)" using sb l by simp
    then have 4: "js_le (js_add (layer_y l) (layer_height l)) (Fin d)" using mb(2) d js_le_trans by metis
    show "js_le (Fin a) (layer_x l) \<and> js_le (Fin b) (layer_y l) \<and>
              js_le (js_add (layer_x l) (layer_width l)) (Fin c) \<and>
              js_le (js_add (layer_y l) (layer_height l)) (Fin d)"
      using 1 2 3 4 by simp
  qed
  show ?thesis using cb vp ls by blast
qed


lemma padded_contains:
  assumes "a \<le> x" "x \<le> c" "b \<le> y" "y \<le> d"
  shows "rect_contains
           \<lparr> rect_x = Fin (a - 0.1 * max (c - a) (d - b)),
             rect_y = Fin (b - 0.1 * max (c - a) (d - b)),
             rect_width = Fin (c - a + 2 * (0.1 * max (c - a) (d - b))),
             rect_height = Fin (d - b + 2 * (0.1 * max (c - a) (d - b))) \<rparr> (Fin x) (Fin y)"
proof -
  have "0 \<le> max (c - a) (d - b)" using assms by simp
  then show ?thesis
    using assms by (simp add: rect_contains_def)
qed

lemma contained_point_finite:
  assumes "rect_contains r px py" and "finite_rect r"
  shows "\<exists>x y. px = Fin x \<and> py = Fin y"
  using assms
  by (cases px; cases py) (auto simp: rect_contains_def finite_rect_def js_finite_iff)

lemma finite_rect_iff:
  "finite_rect r \<longleftrightarrow> (\<exists>x y w h. r = \<lparr>rect_x = Fin x, rect_y = Fin y, rect_width = Fin w, rect_height = Fin h\<rparr>)"
proof
  assume "finite_rect r"
  then obtain x y w h where "rect_x r = Fin x" "rect_y r = Fin y" "rect_width r = Fin w" "rect_height r = Fin h"
    by (auto simp: finite_rect_def js_finite_iff)
  then have "r = \<lparr>rect_x = Fin x, rect_y = Fin y, rect_width = Fin w, rect_height = Fin h\<rparr>"
    by (cases r) simp
  then show "\<exists>x y w h. r = \<lparr>rect_x = Fin x, rect_y = Fin y, rect_width = Fin w, rect_height = Fin h\<rparr>"
    by blast
next
  assume "\<exists>x y w h. r = \<lparr>rect_x = Fin x, rect_y = Fin y, rect_width = Fin w, rect_height = Fin h\<rparr>"
  then show "finite_rect r" by (auto simp: finite_rect_def js_finite_def)
qed

text \<open>
  C6. For finite layers and a finite viewport, every point of a layer's rectangle
  [x, x + width] by [y, y + height] and every point of the viewport rectangle lies in the
  computed content bounds. (No sign condition is needed: a rectangle of negative width or
  height has no points.)
\<close>

theorem bounds_inclusion:
  assumes fin: "\<forall>l\<in>set layers. finite_rect (layer_rect l)"
    and vfin: "finite_rect viewport"
    and inside: "(\<exists>l\<in>set layers. rect_contains (layer_rect l) px py) \<or> rect_contains viewport px py"
  shows "rect_contains (contentBounds layers viewport) px py"
proof -
  obtain vx vy vw vh where v: "viewport = \<lparr>rect_x = Fin vx, rect_y = Fin vy, rect_width = Fin vw, rect_height = Fin vh\<rparr>"
    using vfin by (auto simp: finite_rect_iff)
  obtain x y where p: "px = Fin x" "py = Fin y"
    using inside fin vfin contained_point_finite by blast
  show ?thesis
  proof (cases "layers = []")
    case True
    then have "rect_contains viewport (Fin x) (Fin y)" using inside p by simp
    then have "vx \<le> x" "x \<le> vx + vw" "vy \<le> y" "y \<le> vy + vh"
      by (simp_all add: v rect_contains_def)
    then have "rect_contains
           \<lparr> rect_x = Fin (vx - 0.1 * max (vx + vw - vx) (vy + vh - vy)),
             rect_y = Fin (vy - 0.1 * max (vx + vw - vx) (vy + vh - vy)),
             rect_width = Fin (vx + vw - vx + 2 * (0.1 * max (vx + vw - vx) (vy + vh - vy))),
             rect_height = Fin (vy + vh - vy + 2 * (0.1 * max (vx + vw - vx) (vy + vh - vy))) \<rparr> (Fin x) (Fin y)"
      by (rule padded_contains)
    then show ?thesis
      by (simp add: True v p contentBounds_def js_sub_def Let_def)
  next
    case False
    from contentBounds_fin [OF fin v False]
    obtain a b c d where cb: "contentBounds layers viewport =
             \<lparr> rect_x = Fin (a - 0.1 * max (c - a) (d - b)),
               rect_y = Fin (b - 0.1 * max (c - a) (d - b)),
               rect_width = Fin (c - a + 2 * (0.1 * max (c - a) (d - b))),
               rect_height = Fin (d - b + 2 * (0.1 * max (c - a) (d - b))) \<rparr>"
      and vp: "a \<le> vx" "b \<le> vy" "vx + vw \<le> c" "vy + vh \<le> d"
      and ls: "\<forall>l\<in>set layers. js_le (Fin a) (layer_x l) \<and> js_le (Fin b) (layer_y l) \<and>
              js_le (js_add (layer_x l) (layer_width l)) (Fin c) \<and>
              js_le (js_add (layer_y l) (layer_height l)) (Fin d)"
      by blast
    have "a \<le> x \<and> x \<le> c \<and> b \<le> y \<and> y \<le> d"
      using inside
    proof
      assume "\<exists>l\<in>set layers. rect_contains (layer_rect l) px py"
      then obtain l where l: "l \<in> set layers" "rect_contains (layer_rect l) (Fin x) (Fin y)"
        using p by blast
      from fin l(1) obtain lx ly lw lh where
        lr: "layer_x l = Fin lx" "layer_y l = Fin ly" "layer_width l = Fin lw" "layer_height l = Fin lh"
        by (auto simp: finite_rect_def layer_rect_def js_finite_iff)
      from ls l(1) have "a \<le> lx" "b \<le> ly" "lx + lw \<le> c" "ly + lh \<le> d"
        by (auto simp: lr)
      moreover from l(2) have "lx \<le> x" "x \<le> lx + lw" "ly \<le> y" "y \<le> ly + lh"
        by (simp_all add: rect_contains_def layer_rect_def lr)
      ultimately show ?thesis by simp
    next
      assume "rect_contains viewport px py"
      then have "vx \<le> x" "x \<le> vx + vw" "vy \<le> y" "y \<le> vy + vh"
        by (simp_all add: v p rect_contains_def)
      then show ?thesis using vp by simp
    qed
    then show ?thesis
      unfolding cb p by (intro padded_contains) simp_all
  qed
qed


theorem bounds_inclusion_witness:
  "finite_rect (layer_rect \<lparr>layer_id = ''a'', layer_type = ''image'', layer_x = Fin 0, layer_y = Fin 0,
       layer_width = Fin 100, layer_height = Fin 50\<rparr>)
   \<and> finite_rect \<lparr>rect_x = Fin 200, rect_y = Fin 200, rect_width = Fin 100, rect_height = Fin 100\<rparr>
   \<and> rect_contains (layer_rect \<lparr>layer_id = ''a'', layer_type = ''image'', layer_x = Fin 0, layer_y = Fin 0,
       layer_width = Fin 100, layer_height = Fin 50\<rparr>) (Fin 100) (Fin 50)
   \<and> rect_contains (contentBounds [\<lparr>layer_id = ''a'', layer_type = ''image'', layer_x = Fin 0, layer_y = Fin 0,
       layer_width = Fin 100, layer_height = Fin 50\<rparr>]
       \<lparr>rect_x = Fin 200, rect_y = Fin 200, rect_width = Fin 100, rect_height = Fin 100\<rparr>) (Fin 100) (Fin 50)
   \<and> contentBounds [\<lparr>layer_id = ''a'', layer_type = ''image'', layer_x = Fin 0, layer_y = Fin 0,
       layer_width = Fin 100, layer_height = Fin 50\<rparr>]
       \<lparr>rect_x = Fin 200, rect_y = Fin 200, rect_width = Fin 100, rect_height = Fin 100\<rparr>
     = \<lparr>rect_x = Fin (- 30), rect_y = Fin (- 30), rect_width = Fin 360, rect_height = Fin 360\<rparr>"
proof -
  let ?l = "\<lparr>layer_id = ''a'', layer_type = ''image'', layer_x = Fin 0, layer_y = Fin 0,
       layer_width = Fin 100, layer_height = Fin 50\<rparr>"
  let ?v = "\<lparr>rect_x = Fin 200, rect_y = Fin 200, rect_width = Fin 100, rect_height = Fin 100\<rparr>"
  have fl: "\<forall>l\<in>set [?l]. finite_rect (layer_rect l)"
    by (simp add: finite_rect_def layer_rect_def js_finite_def)
  have fv: "finite_rect ?v"
    by (simp add: finite_rect_def js_finite_def)
  have inl: "rect_contains (layer_rect ?l) (Fin 100) (Fin 50)"
    by (simp add: rect_contains_def layer_rect_def)
  then have "(\<exists>l\<in>set [?l]. rect_contains (layer_rect l) (Fin 100) (Fin 50)) \<or> rect_contains ?v (Fin 100) (Fin 50)"
    by simp
  from bounds_inclusion [OF fl fv this]
  have "rect_contains (contentBounds [?l] ?v) (Fin 100) (Fin 50)" .
  moreover have "contentBounds [?l] ?v
     = \<lparr>rect_x = Fin (- 30), rect_y = Fin (- 30), rect_width = Fin 360, rect_height = Fin 360\<rparr>"
    by (simp add: contentBounds_def include_layer_def js_sub_def Let_def)
  ultimately show ?thesis using fl fv inl by simp
qed

section \<open>Properties of click and drag\<close>

lemma center_of_offset:
  assumes "s \<noteq> 0"
  shows "rect_center (getViewportInWorld \<lparr>point_x = Fin (W / 2 - c * s), point_y = Fin (H / 2 - c' * s)\<rparr>
            (Fin s) (Fin W) (Fin H)) = \<lparr>point_x = Fin c, point_y = Fin c'\<rparr>"
  using assms
  by (simp add: rect_center_def getViewportInWorld_def field_simps)

text \<open>
  C4. A click while no drag is in progress, in a mounted widget, at a point that
  \<^verbatim>\<open>minimapToWorld\<close> sends to the finite world point (wx, wy), with a finite non-zero
  scale: the handler calls \<^verbatim>\<open>onViewportChange\<close> once, with the offset
  (W / 2 - wx * scale, H / 2 - wy * scale). This offset satisfies
  -offset.x / scale = wx - W / (2 * scale), and likewise for y, and the viewport that
  \<^verbatim>\<open>getViewportInWorld\<close> derives from it has (wx, wy) as its centre.
\<close>

theorem click_centers:
  assumes "minimapToWorld b zoom (js_sub (clientX e) (dom_left r)) (js_sub (clientY e) (dom_top r))
             = \<lparr>point_x = Fin wx, point_y = Fin wy\<rparr>"
    and "s \<noteq> 0"
  shows "\<exists>nx ny.
           handleMinimapClick False (Some r) b zoom (Fin s) (Fin W) (Fin H) e
             = [\<lparr>point_x = Fin nx, point_y = Fin ny\<rparr>] \<and>
           nx = W / 2 - wx * s \<and> ny = H / 2 - wy * s \<and>
           - nx / s = wx - W / (2 * s) \<and> - ny / s = wy - H / (2 * s) \<and>
           rect_center (getViewportInWorld \<lparr>point_x = Fin nx, point_y = Fin ny\<rparr> (Fin s) (Fin W) (Fin H))
             = \<lparr>point_x = Fin wx, point_y = Fin wy\<rparr>"
proof -
  have emit: "handleMinimapClick False (Some r) b zoom (Fin s) (Fin W) (Fin H) e
      = [\<lparr>point_x = Fin (W / 2 - wx * s), point_y = Fin (H / 2 - wy * s)\<rparr>]"
    using assms(1) by (simp add: handleMinimapClick_def js_sub_def Let_def)
  have alg: "- (W / 2 - wx * s) / s = wx - W / (2 * s)" "- (H / 2 - wy * s) / s = wy - H / (2 * s)"
    using assms(2) by (simp_all add: field_simps)
  show ?thesis
    using emit alg center_of_offset [OF assms(2)] by blast
qed

theorem click_centers_witness:
  "minimapToWorld \<lparr>rect_x = Fin 0, rect_y = Fin 0, rect_width = Fin 400, rect_height = Fin 300\<rparr> (Fin 1)
     (js_sub (clientX \<lparr>clientX = Fin 1100, clientY = Fin 575\<rparr>) (dom_left \<lparr>dom_left = Fin 1000, dom_top = Fin 500\<rparr>))
     (js_sub (clientY \<lparr>clientX = Fin 1100, clientY = Fin 575\<rparr>) (dom_top \<lparr>dom_left = Fin 1000, dom_top = Fin 500\<rparr>))
     = \<lparr>point_x = Fin 200, point_y = Fin 150\<rparr>
   \<and> (2::real) \<noteq> 0
   \<and> handleMinimapClick False (Some \<lparr>dom_left = Fin 1000, dom_top = Fin 500\<rparr>)
        \<lparr>rect_x = Fin 0, rect_y = Fin 0, rect_width = Fin 400, rect_height = Fin 300\<rparr> (Fin 1)
        (Fin 2) (Fin 800) (Fin 600) \<lparr>clientX = Fin 1100, clientY = Fin 575\<rparr>
     = [\<lparr>point_x = Fin 0, point_y = Fin 0\<rparr>]"
proof -
  have h: "minimapToWorld \<lparr>rect_x = Fin 0, rect_y = Fin 0, rect_width = Fin 400, rect_height = Fin 300\<rparr> (Fin 1)
     (js_sub (clientX \<lparr>clientX = Fin 1100, clientY = Fin 575\<rparr>) (dom_left \<lparr>dom_left = Fin 1000, dom_top = Fin 500\<rparr>))
     (js_sub (clientY \<lparr>clientX = Fin 1100, clientY = Fin 575\<rparr>) (dom_top \<lparr>dom_left = Fin 1000, dom_top = Fin 500\<rparr>))
     = \<lparr>point_x = Fin 200, point_y = Fin 150\<rparr>"
    by (simp add: minimapToWorld_def MINIMAP_WIDTH_def MINIMAP_HEIGHT_def js_sub_def Let_def)
  have s: "(2::real) \<noteq> 0" by simp
  from click_centers [OF h s, of 800 600]
  have "handleMinimapClick False (Some \<lparr>dom_left = Fin 1000, dom_top = Fin 500\<rparr>)
        \<lparr>rect_x = Fin 0, rect_y = Fin 0, rect_width = Fin 400, rect_height = Fin 300\<rparr> (Fin 1)
        (Fin 2) (Fin 800) (Fin 600) \<lparr>clientX = Fin 1100, clientY = Fin 575\<rparr>
     = [\<lparr>point_x = Fin 0, point_y = Fin 0\<rparr>]"
    by auto
  with h s show ?thesis by blast
qed

lemma viewportRect_fin:
  assumes "0 < bw" "0 < bh"
  shows "viewportRect \<lparr>rect_x = Fin vx, rect_y = Fin vy, rect_width = Fin vw, rect_height = Fin vh\<rparr>
           \<lparr>rect_x = Fin ox, rect_y = Fin oy, rect_width = Fin bw, rect_height = Fin bh\<rparr> (Fin z) =
         \<lparr> rect_x = Fin ((vx - ox) * fit bw bh z + (200 - bw * fit bw bh z) / 2),
           rect_y = Fin ((vy - oy) * fit bw bh z + (150 - bh * fit bw bh z) / 2),
           rect_width = Fin (vw * fit bw bh z),
           rect_height = Fin (vh * fit bw bh z) \<rparr>"
  by (simp add: viewportRect_def worldToMinimap_fin [OF assms] Let_def)

text \<open>
  C8. A drag that starts with the pointer on the centre of the viewport marker stores the
  grab offset (0, 0). With the bounds, the zoom, the scale and the window size unchanged, a
  pointer move by (dx, dy) then emits one offset, and the centre of the viewport derived
  from that offset is the centre of the viewport at the start of the drag plus
  (dx / fitScale, dy / fitScale); for dx = dy = 0 it is that centre itself.
\<close>

theorem drag_continuity:
  assumes "0 < bw" and "0 < bh" and "1 / 2 \<le> z" and "z \<le> 3" and "s \<noteq> 0"
    and b: "b = \<lparr>rect_x = Fin ox, rect_y = Fin oy, rect_width = Fin bw, rect_height = Fin bh\<rparr>"
    and v: "v = \<lparr>rect_x = Fin vx, rect_y = Fin vy, rect_width = Fin vw, rect_height = Fin vh\<rparr>"
    and r: "r = \<lparr>dom_left = Fin l, dom_top = Fin t\<rparr>"
    and e0: "e0 = \<lparr>clientX = Fin cx, clientY = Fin cy\<rparr>"
    and at_center: "\<lparr>point_x = js_sub (clientX e0) (dom_left r), point_y = js_sub (clientY e0) (dom_top r)\<rparr>
                      = rect_center (viewportRect v b (Fin z))"
    and st1: "st1 = handleViewportMouseDown st0 (Some r) (viewportRect v b (Fin z)) e0"
    and e1: "e1 = \<lparr>clientX = Fin (cx + dx), clientY = Fin (cy + dy)\<rparr>"
  shows "isDraggingViewport st1 \<and> dragOffsetRef st1 = \<lparr>point_x = Fin 0, point_y = Fin 0\<rparr> \<and>
         (\<exists>f nx ny. pos_scale (worldToMinimap b (Fin z) (rect_x v) (rect_y v)) = Fin f \<and>
            handleMouseMove st1 (Some r) b (Fin z) (Fin s) (Fin W) (Fin H) e1
              = [\<lparr>point_x = Fin nx, point_y = Fin ny\<rparr>] \<and>
            rect_center v = \<lparr>point_x = Fin (vx + vw / 2), point_y = Fin (vy + vh / 2)\<rparr> \<and>
            rect_center (getViewportInWorld \<lparr>point_x = Fin nx, point_y = Fin ny\<rparr> (Fin s) (Fin W) (Fin H))
              = \<lparr>point_x = Fin (vx + vw / 2 + dx / f), point_y = Fin (vy + vh / 2 + dy / f)\<rparr>)"
proof -
  let ?f = "fit bw bh z"
  let ?offX = "(200 - bw * ?f) / 2"
  let ?offY = "(150 - bh * ?f) / 2"
  have z: "0 < z" using assms(3) by simp
  have f: "?f \<noteq> 0" using fit_pos [OF assms(1,2) z] by simp
  have vr: "viewportRect v b (Fin z) =
      \<lparr> rect_x = Fin ((vx - ox) * ?f + ?offX), rect_y = Fin ((vy - oy) * ?f + ?offY),
        rect_width = Fin (vw * ?f), rect_height = Fin (vh * ?f) \<rparr>"
    unfolding b v by (rule viewportRect_fin [OF assms(1,2)])
  have cx: "cx - l = (vx - ox) * ?f + ?offX + vw * ?f / 2"
    and cy: "cy - t = (vy - oy) * ?f + ?offY + vh * ?f / 2"
    using at_center by (simp_all add: vr r e0 rect_center_def js_sub_def)
  have down: "st1 = st0\<lparr>isDraggingViewport := True,
      dragOffsetRef := \<lparr>point_x = Fin 0, point_y = Fin 0\<rparr>\<rparr>"
    by (simp add: st1 handleViewportMouseDown_def vr r e0 js_sub_def Let_def cx cy)
  have wx: "(cx + dx - l - 0 - ?offX) / ?f + ox = vx + vw / 2 + dx / ?f"
  proof -
    have "cx + dx - l - 0 - ?offX = (cx - l) + dx - ?offX" by simp
    also have "\<dots> = (vx - ox) * ?f + vw * ?f / 2 + dx" by (simp add: cx)
    finally show ?thesis using f by (simp add: field_simps)
  qed
  have wy: "(cy + dy - t - 0 - ?offY) / ?f + oy = vy + vh / 2 + dy / ?f"
  proof -
    have "cy + dy - t - 0 - ?offY = (cy - t) + dy - ?offY" by simp
    also have "\<dots> = (vy - oy) * ?f + vh * ?f / 2 + dy" by (simp add: cy)
    finally show ?thesis using f by (simp add: field_simps)
  qed
  have world: "minimapToWorld b (Fin z) (Fin (cx + dx - l - 0)) (Fin (cy + dy - t - 0))
      = \<lparr>point_x = Fin (vx + vw / 2 + dx / ?f), point_y = Fin (vy + vh / 2 + dy / ?f)\<rparr>"
    unfolding b minimapToWorld_fin [OF assms(1,2) z] using wx wy by simp
  have move: "handleMouseMove st1 (Some r) b (Fin z) (Fin s) (Fin W) (Fin H) e1
      = [\<lparr>point_x = Fin (W / 2 - (vx + vw / 2 + dx / ?f) * s),
          point_y = Fin (H / 2 - (vy + vh / 2 + dy / ?f) * s)\<rparr>]"
    using world by (simp add: handleMouseMove_def down r e1 js_sub_def Let_def)
  have scale: "pos_scale (worldToMinimap b (Fin z) (rect_x v) (rect_y v)) = Fin ?f"
    unfolding b v by (simp add: worldToMinimap_fin [OF assms(1,2)])
  have cv: "rect_center v = \<lparr>point_x = Fin (vx + vw / 2), point_y = Fin (vy + vh / 2)\<rparr>"
    by (simp add: v rect_center_def)
  show ?thesis
    using down scale move cv center_of_offset [OF assms(5)] by auto
qed

theorem drag_continuity_witness:
  "\<lparr>point_x = js_sub (clientX \<lparr>clientX = Fin 1100, clientY = Fin 550\<rparr>) (dom_left \<lparr>dom_left = Fin 1000, dom_top = Fin 500\<rparr>),
     point_y = js_sub (clientY \<lparr>clientX = Fin 1100, clientY = Fin 550\<rparr>) (dom_top \<lparr>dom_left = Fin 1000, dom_top = Fin 500\<rparr>)\<rparr>
     = rect_center (viewportRect \<lparr>rect_x = Fin 100, rect_y = Fin 50, rect_width = Fin 200, rect_height = Fin 100\<rparr>
         \<lparr>rect_x = Fin 0, rect_y = Fin 0, rect_width = Fin 400, rect_height = Fin 300\<rparr> (Fin 1))
   \<and> handleMouseMove
        (handleViewportMouseDown initial_dragState (Some \<lparr>dom_left = Fin 1000, dom_top = Fin 500\<rparr>)
           (viewportRect \<lparr>rect_x = Fin 100, rect_y = Fin 50, rect_width = Fin 200, rect_height = Fin 100\<rparr>
              \<lparr>rect_x = Fin 0, rect_y = Fin 0, rect_width = Fin 400, rect_height = Fin 300\<rparr> (Fin 1))
           \<lparr>clientX = Fin 1100, clientY = Fin 550\<rparr>)
        (Some \<lparr>dom_left = Fin 1000, dom_top = Fin 500\<rparr>)
        \<lparr>rect_x = Fin 0, rect_y = Fin 0, rect_width = Fin 400, rect_height = Fin 300\<rparr> (Fin 1)
        (Fin 1) (Fin 200) (Fin 100) \<lparr>clientX = Fin (1100 + 10), clientY = Fin (550 + - 5)\<rparr>
     = [\<lparr>point_x = Fin (- 120), point_y = Fin (- 40)\<rparr>]"
proof -
  let ?b = "\<lparr>rect_x = Fin 0, rect_y = Fin 0, rect_width = Fin 400, rect_height = Fin 300\<rparr>"
  let ?v = "\<lparr>rect_x = Fin 100, rect_y = Fin 50, rect_width = Fin 200, rect_height = Fin 100\<rparr>"
  let ?r = "\<lparr>dom_left = Fin 1000, dom_top = Fin 500\<rparr>"
  let ?e0 = "\<lparr>clientX = Fin 1100, clientY = Fin 550\<rparr>"
  have h: "\<lparr>point_x = js_sub (clientX ?e0) (dom_left ?r), point_y = js_sub (clientY ?e0) (dom_top ?r)\<rparr>
     = rect_center (viewportRect ?v ?b (Fin 1))"
    by (simp add: rect_center_def viewportRect_def worldToMinimap_def MINIMAP_WIDTH_def
        MINIMAP_HEIGHT_def js_sub_def Let_def)
  have sc: "pos_scale (worldToMinimap ?b (Fin 1) (Fin 100) (Fin 50)) = Fin (1 / 2)"
    by (simp add: worldToMinimap_def MINIMAP_WIDTH_def MINIMAP_HEIGHT_def js_sub_def Let_def)
  from drag_continuity [where bw = 400 and bh = 300 and z = 1 and s = 1 and b = ?b and v = ?v
      and r = ?r and ?e0.0 = ?e0 and dx = 10 and dy = "- 5" and W = 200 and H = 100
      and ?st0.0 = initial_dragState, OF _ _ _ _ _ refl refl refl refl h refl refl]
  obtain f nx ny where
    f: "pos_scale (worldToMinimap ?b (Fin 1) (rect_x ?v) (rect_y ?v)) = Fin f"
    and mv: "handleMouseMove (handleViewportMouseDown initial_dragState (Some ?r) (viewportRect ?v ?b (Fin 1)) ?e0)
        (Some ?r) ?b (Fin 1) (Fin 1) (Fin 200) (Fin 100) \<lparr>clientX = Fin (1100 + 10), clientY = Fin (550 + - 5)\<rparr>
        = [\<lparr>point_x = Fin nx, point_y = Fin ny\<rparr>]"
    and c: "rect_center (getViewportInWorld \<lparr>point_x = Fin nx, point_y = Fin ny\<rparr> (Fin 1) (Fin 200) (Fin 100))
        = \<lparr>point_x = Fin (100 + 200 / 2 + 10 / f), point_y = Fin (50 + 100 / 2 + - 5 / f)\<rparr>"
    by auto
  have f': "f = 1 / 2" using f sc by simp
  have "nx = - 120" "ny = - 40"
    using c unfolding f' by (simp_all add: rect_center_def getViewportInWorld_def)
  with mv h show ?thesis by simp
qed

section \<open>Properties of the zoom\<close>

lemma handleWheel_fin:
  "handleWheel (Fin d) (Fin z) = Fin (min (max (z + (- d * 0.002)) 0.5) 3)"
  by (simp add: handleWheel_def Let_def)

lemma wheel_events_snoc:
  "wheel_events (ds @ [d]) = handleWheel d (wheel_events ds)"
  by (simp add: wheel_events_def)

lemma wheel_events_range:
  "\<forall>d\<in>set ds. js_finite d \<Longrightarrow> \<exists>z. wheel_events ds = Fin z \<and> 1 / 2 \<le> z \<and> z \<le> 3"
proof (induction ds rule: rev_induct)
  case Nil
  then show ?case by (simp add: wheel_events_def initial_minimapZoom_def)
next
  case (snoc d ds)
  then obtain z where z: "wheel_events ds = Fin z" "1 / 2 \<le> z" "z \<le> 3"
    by auto
  from snoc.prems obtain r where r: "d = Fin r"
    by (auto simp: js_finite_iff)
  show ?case
    using z(2,3) by (auto simp: wheel_events_snoc z(1) r handleWheel_fin min_def max_def)
qed

text \<open>
  C5. The zoom starts at 1. After any sequence of wheel events with finite deltas it is a
  finite value z in [0.5, 3], and one more event with delta d turns it into
  clamp(z + (-d * 0.002), 0.5, 3). The update never moves against the sign of the zoom
  delta -d * 0.002 (up for d below 0, down for d above 0), and it moves strictly as long as
  the zoom is not at the boundary it moves towards.
\<close>

theorem zoom_clamp:
  assumes "\<forall>d\<in>set deltas. js_finite d"
  shows "wheel_events [] = Fin 1 \<and>
         (\<exists>z z'. wheel_events deltas = Fin z \<and> 1 / 2 \<le> z \<and> z \<le> 3 \<and>
            z' = min (max (z + (- d * 0.002)) 0.5) 3 \<and>
            wheel_events (deltas @ [Fin d]) = Fin z' \<and>
            (d \<le> 0 \<longrightarrow> z \<le> z') \<and> (0 \<le> d \<longrightarrow> z' \<le> z) \<and>
            (d < 0 \<and> z < 3 \<longrightarrow> z < z') \<and> (0 < d \<and> 1 / 2 < z \<longrightarrow> z' < z))"
proof -
  obtain z where z: "wheel_events deltas = Fin z" "1 / 2 \<le> z" "z \<le> 3"
    using wheel_events_range [OF assms] by blast
  have step: "wheel_events (deltas @ [Fin d]) = Fin (min (max (z + (- d * 0.002)) 0.5) 3)"
    by (simp add: wheel_events_snoc z(1) handleWheel_fin)
  have mono: "(d \<le> 0 \<longrightarrow> z \<le> min (max (z + (- d * 0.002)) 0.5) 3) \<and>
      (0 \<le> d \<longrightarrow> min (max (z + (- d * 0.002)) 0.5) 3 \<le> z) \<and>
      (d < 0 \<and> z < 3 \<longrightarrow> z < min (max (z + (- d * 0.002)) 0.5) 3) \<and>
      (0 < d \<and> 1 / 2 < z \<longrightarrow> min (max (z + (- d * 0.002)) 0.5) 3 < z)"
    using z(2,3) by (auto simp: min_def max_def)
  have init: "wheel_events [] = Fin 1"
    by (simp add: wheel_events_def initial_minimapZoom_def)
  show ?thesis
    using init z step mono by blast
qed

theorem zoom_clamp_witness:
  "js_finite (Fin 100) \<and> js_finite (Fin (- 2000)) \<and>
   (\<exists>z z'. wheel_events [Fin 100, Fin (- 2000)] = Fin z \<and> 1 / 2 \<le> z \<and> z \<le> 3 \<and>
      z' = min (max (z + (- 50 * 0.002)) 0.5) 3 \<and>
      wheel_events ([Fin 100, Fin (- 2000)] @ [Fin 50]) = Fin z' \<and> z' < z)"
proof -
  have h: "\<forall>d\<in>set [Fin 100, Fin (- 2000)]. js_finite d"
    by (simp add: js_finite_def)
  have "\<exists>z z'. wheel_events [Fin 100, Fin (- 2000)] = Fin z \<and> 1 / 2 \<le> z \<and> z \<le> 3 \<and>
      z' = min (max (z + (- 50 * 0.002)) 0.5) 3 \<and>
      wheel_events ([Fin 100, Fin (- 2000)] @ [Fin 50]) = Fin z' \<and>
      (0 < (50::real) \<and> 1 / 2 < z \<longrightarrow> z' < z)"
    using zoom_clamp [OF h, of 50] by blast
  moreover have "wheel_events [Fin 100, Fin (- 2000)] = Fin 3"
    by (simp add: wheel_events_def initial_minimapZoom_def handleWheel_fin)
  ultimately show ?thesis
    using h by auto
qed

section \<open>Properties of the render order\<close>

lemma compareLayers_rank:
  "compareLayers sel a b < 0 \<longleftrightarrow> rank sel a < rank sel b"
  by (simp add: compareLayers_def rank_def is_group_def is_selected_def)

lemma insert_sorted_append:
  assumes "\<forall>a\<in>set as. \<not> cmp v a < 0" and "\<forall>b\<in>set bs. cmp v b < 0"
  shows "insert_sorted cmp v (as @ bs) = as @ v # bs"
  using assms
proof (induction as)
  case Nil
  then show ?case by (cases bs) simp_all
next
  case (Cons a as)
  then show ?case by simp
qed

lemma array_sort_snoc:
  "array_sort cmp (xs @ [v]) = insert_sorted cmp v (array_sort cmp xs)"
  by (simp add: array_sort_def)

lemma sort_by_rank:
  "array_sort (compareLayers sel) xs =
     filter (\<lambda>l. rank sel l = 0) xs @ filter (\<lambda>l. rank sel l = 1) xs @
     filter (\<lambda>l. rank sel l = 2) xs @ filter (\<lambda>l. rank sel l = 3) xs"
proof (induction xs rule: rev_induct)
  case Nil
  show ?case by (simp add: array_sort_def)
next
  case (snoc v xs)
  let ?F = "\<lambda>k. filter (\<lambda>l. rank sel l = k) xs"
  have r: "rank sel v = 0 \<or> rank sel v = 1 \<or> rank sel v = 2 \<or> rank sel v = 3"
    by (simp add: rank_def)
  have ins: "insert_sorted (compareLayers sel) v (as @ bs) = as @ v # bs"
    if "\<forall>a\<in>set as. rank sel a \<le> rank sel v" and "\<forall>b\<in>set bs. rank sel v < rank sel b" for as bs
    using that by (intro insert_sorted_append) (auto simp: compareLayers_rank)
  from r show ?case
  proof (elim disjE)
    assume k: "rank sel v = 0"
    have "insert_sorted (compareLayers sel) v (?F 0 @ (?F 1 @ ?F 2 @ ?F 3)) = ?F 0 @ v # (?F 1 @ ?F 2 @ ?F 3)"
      by (rule ins) (auto simp: k)
    then show ?thesis by (simp add: array_sort_snoc snoc.IH k)
  next
    assume k: "rank sel v = 1"
    have "insert_sorted (compareLayers sel) v ((?F 0 @ ?F 1) @ (?F 2 @ ?F 3)) = (?F 0 @ ?F 1) @ v # (?F 2 @ ?F 3)"
      by (rule ins) (auto simp: k)
    then show ?thesis by (simp add: array_sort_snoc snoc.IH k)
  next
    assume k: "rank sel v = 2"
    have "insert_sorted (compareLayers sel) v ((?F 0 @ ?F 1 @ ?F 2) @ ?F 3) = (?F 0 @ ?F 1 @ ?F 2) @ v # ?F 3"
      by (rule ins) (auto simp: k)
    then show ?thesis by (simp add: array_sort_snoc snoc.IH k)
  next
    assume k: "rank sel v = 3"
    have "insert_sorted (compareLayers sel) v ((?F 0 @ ?F 1 @ ?F 2 @ ?F 3) @ []) = (?F 0 @ ?F 1 @ ?F 2 @ ?F 3) @ v # []"
      by (rule ins) (auto simp: k)
    then show ?thesis by (simp add: array_sort_snoc snoc.IH k)
  qed
qed

lemma rank_cases:
  "rank sel l = 0 \<longleftrightarrow> is_group l \<and> \<not> is_selected sel l"
  "rank sel l = 1 \<longleftrightarrow> is_group l \<and> is_selected sel l"
  "rank sel l = Suc 0 \<longleftrightarrow> is_group l \<and> is_selected sel l"
  "rank sel l = 2 \<longleftrightarrow> \<not> is_group l \<and> \<not> is_selected sel l"
  "rank sel l = 3 \<longleftrightarrow> \<not> is_group l \<and> is_selected sel l"
  by (simp_all add: rank_def)

lemma sortedLayers_partition:
  "sortedLayers layers sel =
     filter (\<lambda>l. is_group l \<and> \<not> is_selected sel l) layers @
     filter (\<lambda>l. is_group l \<and> is_selected sel l) layers @
     filter (\<lambda>l. \<not> is_group l \<and> \<not> is_selected sel l) layers @
     filter (\<lambda>l. \<not> is_group l \<and> is_selected sel l) layers"
  by (simp add: sortedLayers_def sort_by_rank rank_cases)

lemma filter_only:
  assumes "distinct xs" and "x \<in> set xs"
  shows "filter (\<lambda>y. y = x) xs = [x]"
  using assms
proof (induction xs)
  case Nil
  then show ?case by simp
next
  case (Cons a xs)
  show ?case
  proof (cases "a = x")
    case True
    then have "x \<notin> set xs" using Cons.prems(1) by simp
    then have "filter (\<lambda>y. y = x) xs = []" by (auto simp: filter_empty_conv)
    then show ?thesis using True by simp
  next
    case False
    then show ?thesis using Cons by simp
  qed
qed

lemma selected_unique:
  assumes "distinct (map layer_id layers)" and "l \<in> set layers" and "is_selected sel l"
    and "k \<in> set layers"
  shows "is_selected sel k \<longleftrightarrow> k = l"
proof
  assume "is_selected sel k"
  then have "layer_id k = layer_id l"
    using assms(3) by (auto simp: is_selected_def)
  moreover have "inj_on layer_id (set layers)"
    using assms(1) by (simp add: distinct_map)
  ultimately show "k = l"
    using assms(2,4) by (auto dest: inj_onD)
next
  assume "k = l"
  then show "is_selected sel k" using assms(3) by simp
qed

text \<open>
  C3, as the claim states it, fails: a selected group is not last. With a selected group
  and an image, the order is the group, then the image.
\<close>

theorem selected_group_not_last:
  "sortedLayers
     [\<lparr>layer_id = ''g'', layer_type = ''group'', layer_x = Fin 0, layer_y = Fin 0, layer_width = Fin 100, layer_height = Fin 100\<rparr>,
      \<lparr>layer_id = ''p'', layer_type = ''image'', layer_x = Fin 10, layer_y = Fin 10, layer_width = Fin 20, layer_height = Fin 20\<rparr>]
     (Some ''g'')
   = [\<lparr>layer_id = ''g'', layer_type = ''group'', layer_x = Fin 0, layer_y = Fin 0, layer_width = Fin 100, layer_height = Fin 100\<rparr>,
      \<lparr>layer_id = ''p'', layer_type = ''image'', layer_x = Fin 10, layer_y = Fin 10, layer_width = Fin 20, layer_height = Fin 20\<rparr>]
   \<and> layer_id (last (sortedLayers
     [\<lparr>layer_id = ''g'', layer_type = ''group'', layer_x = Fin 0, layer_y = Fin 0, layer_width = Fin 100, layer_height = Fin 100\<rparr>,
      \<lparr>layer_id = ''p'', layer_type = ''image'', layer_x = Fin 10, layer_y = Fin 10, layer_width = Fin 20, layer_height = Fin 20\<rparr>]
     (Some ''g''))) \<noteq> ''g''"
  by (simp add: sortedLayers_def array_sort_def compareLayers_def)

text \<open>
  C3, amended: the render order lists, each in the order of the layer list, the groups that
  are not selected, the selected groups, the other layers that are not selected, and the
  other layers that are selected. So every group comes before every layer that is not a
  group. When the ids are distinct and a layer l has the selected id: if l is not a group
  it is the last of all; if l is a group it comes after the other groups and before every
  layer that is not a group.
\<close>

theorem sortedLayers_order:
  "sortedLayers layers sel =
     filter (\<lambda>k. is_group k \<and> \<not> is_selected sel k) layers @
     filter (\<lambda>k. is_group k \<and> is_selected sel k) layers @
     filter (\<lambda>k. \<not> is_group k \<and> \<not> is_selected sel k) layers @
     filter (\<lambda>k. \<not> is_group k \<and> is_selected sel k) layers
   \<and> (distinct (map layer_id layers) \<and> l \<in> set layers \<and> is_selected sel l \<longrightarrow>
        sortedLayers layers sel =
          (if is_group l
           then filter (\<lambda>k. is_group k \<and> k \<noteq> l) layers @ [l] @ filter (\<lambda>k. \<not> is_group k) layers
           else filter is_group layers @ filter (\<lambda>k. \<not> is_group k \<and> k \<noteq> l) layers @ [l]))"
proof (intro conjI impI)
  show "sortedLayers layers sel =
     filter (\<lambda>k. is_group k \<and> \<not> is_selected sel k) layers @
     filter (\<lambda>k. is_group k \<and> is_selected sel k) layers @
     filter (\<lambda>k. \<not> is_group k \<and> \<not> is_selected sel k) layers @
     filter (\<lambda>k. \<not> is_group k \<and> is_selected sel k) layers"
    by (rule sortedLayers_partition)
next
  assume a: "distinct (map layer_id layers) \<and> l \<in> set layers \<and> is_selected sel l"
  then have d: "distinct layers" by (simp add: distinct_map)
  have u: "\<And>k. k \<in> set layers \<Longrightarrow> is_selected sel k \<longleftrightarrow> k = l"
    using a selected_unique by blast
  have only: "filter (\<lambda>k. k = l) layers = [l]"
    using d a by (simp add: filter_only)
  have f0: "filter (\<lambda>k. is_group k \<and> \<not> is_selected sel k) layers
      = filter (\<lambda>k. is_group k \<and> k \<noteq> l) layers"
    by (rule filter_cong) (auto simp: u)
  have f2: "filter (\<lambda>k. \<not> is_group k \<and> \<not> is_selected sel k) layers
      = filter (\<lambda>k. \<not> is_group k \<and> k \<noteq> l) layers"
    by (rule filter_cong) (auto simp: u)
  show "sortedLayers layers sel =
          (if is_group l
           then filter (\<lambda>k. is_group k \<and> k \<noteq> l) layers @ [l] @ filter (\<lambda>k. \<not> is_group k) layers
           else filter is_group layers @ filter (\<lambda>k. \<not> is_group k \<and> k \<noteq> l) layers @ [l])"
  proof (cases "is_group l")
    case True
    have f1: "filter (\<lambda>k. is_group k \<and> is_selected sel k) layers = [l]"
    proof -
      have "filter (\<lambda>k. is_group k \<and> is_selected sel k) layers = filter (\<lambda>k. k = l) layers"
        by (rule filter_cong) (auto simp: u True)
      then show ?thesis by (simp add: only)
    qed
    have f3: "filter (\<lambda>k. \<not> is_group k \<and> is_selected sel k) layers = []"
      by (auto simp: filter_empty_conv u True)
    have f2': "filter (\<lambda>k. \<not> is_group k \<and> k \<noteq> l) layers = filter (\<lambda>k. \<not> is_group k) layers"
      by (rule filter_cong) (auto simp: True)
    show ?thesis
      by (simp add: sortedLayers_partition f0 f1 f2 f2' f3 True)
  next
    case False
    have f1: "filter (\<lambda>k. is_group k \<and> is_selected sel k) layers = []"
      by (auto simp: filter_empty_conv u False)
    have f3: "filter (\<lambda>k. \<not> is_group k \<and> is_selected sel k) layers = [l]"
    proof -
      have "filter (\<lambda>k. \<not> is_group k \<and> is_selected sel k) layers = filter (\<lambda>k. k = l) layers"
        by (rule filter_cong) (auto simp: u False)
      then show ?thesis by (simp add: only)
    qed
    have f0': "filter (\<lambda>k. is_group k \<and> k \<noteq> l) layers = filter is_group layers"
      by (rule filter_cong) (auto simp: False)
    show ?thesis
      by (simp add: sortedLayers_partition f0 f0' f1 f2 f3 False)
  qed
qed

theorem sortedLayers_order_witness:
  "distinct (map layer_id
     [\<lparr>layer_id = ''p'', layer_type = ''image'', layer_x = Fin 10, layer_y = Fin 10, layer_width = Fin 20, layer_height = Fin 20\<rparr>,
      \<lparr>layer_id = ''g'', layer_type = ''group'', layer_x = Fin 0, layer_y = Fin 0, layer_width = Fin 100, layer_height = Fin 100\<rparr>,
      \<lparr>layer_id = ''q'', layer_type = ''note'', layer_x = Fin 50, layer_y = Fin 50, layer_width = Fin 20, layer_height = Fin 20\<rparr>])
   \<and> is_selected (Some ''p'')
       \<lparr>layer_id = ''p'', layer_type = ''image'', layer_x = Fin 10, layer_y = Fin 10, layer_width = Fin 20, layer_height = Fin 20\<rparr>
   \<and> sortedLayers
     [\<lparr>layer_id = ''p'', layer_type = ''image'', layer_x = Fin 10, layer_y = Fin 10, layer_width = Fin 20, layer_height = Fin 20\<rparr>,
      \<lparr>layer_id = ''g'', layer_type = ''group'', layer_x = Fin 0, layer_y = Fin 0, layer_width = Fin 100, layer_height = Fin 100\<rparr>,
      \<lparr>layer_id = ''q'', layer_type = ''note'', layer_x = Fin 50, layer_y = Fin 50, layer_width = Fin 20, layer_height = Fin 20\<rparr>]
     (Some ''p'')
   = [\<lparr>layer_id = ''g'', layer_type = ''group'', layer_x = Fin 0, layer_y = Fin 0, layer_width = Fin 100, layer_height = Fin 100\<rparr>,
      \<lparr>layer_id = ''q'', layer_type = ''note'', layer_x = Fin 50, layer_y = Fin 50, layer_width = Fin 20, layer_height = Fin 20\<rparr>,
      \<lparr>layer_id = ''p'', layer_type = ''image'', layer_x = Fin 10, layer_y = Fin 10, layer_width = Fin 20, layer_height = Fin 20\<rparr>]"
  using sortedLayers_order [of
     "[\<lparr>layer_id = ''p'', layer_type = ''image'', layer_x = Fin 10, layer_y = Fin 10, layer_width = Fin 20, layer_height = Fin 20\<rparr>,
      \<lparr>layer_id = ''g'', layer_type = ''group'', layer_x = Fin 0, layer_y = Fin 0, layer_width = Fin 100, layer_height = Fin 100\<rparr>,
      \<lparr>layer_id = ''q'', layer_type = ''note'', layer_x = Fin 50, layer_y = Fin 50, layer_width = Fin 20, layer_height = Fin 20\<rparr>]"
     "Some ''p''"
     "\<lparr>layer_id = ''p'', layer_type = ''image'', layer_x = Fin 10, layer_y = Fin 10, layer_width = Fin 20, layer_height = Fin 20\<rparr>"]
  by (simp add: is_group_def is_selected_def)

section \<open>Properties of the saved history\<close>

lemma array_slice_last:
  "array_slice (- MAX_HISTORY_STATES) xs = drop (length xs - 20) xs"
  by (simp add: array_slice_def MAX_HISTORY_STATES_def Let_def max_def nat_diff_distrib')

text \<open>
  C9. When the transaction completes, the object stored under the key "history" holds the
  suffix of the given history made of its last min(20, length) entries, and the given
  (finite) index lowered by the number of entries cut off and then raised to 0 if below.
  So the stored index is never negative and the stored history never has more than 20
  entries.
\<close>

theorem saveHistory_trims:
  "\<exists>trimmed idx.
     saveHistory TxComplete store history (Fin i) =
       (Resolved, store(''history'' \<mapsto> History trimmed (Fin idx))) \<and>
     suffix trimmed history \<and>
     length trimmed = min 20 (length history) \<and>
     idx = max 0 (i - real (length history - length trimmed)) \<and>
     0 \<le> idx \<and> length trimmed \<le> 20"
proof -
  let ?t = "drop (length history - 20) history"
  have len: "length ?t = min 20 (length history)" by auto
  have "length ?t \<le> length history" by simp
  then have diff: "real (length history) - real (length ?t) = real (length history - length ?t)"
    by (rule of_nat_diff [symmetric])
  have "saveHistory TxComplete store history (Fin i) =
      (Resolved, store(''history'' \<mapsto> History ?t (Fin (max 0 (i - real (length history - length ?t))))))"
    unfolding saveHistory_def array_slice_last Let_def js_sub_def
    by (simp only: db_outcome.case js_neg.simps js_add.simps js_max.simps minus_diff_eq
          diff [symmetric]) (simp add: algebra_simps)
  moreover have "suffix ?t history" by (rule suffix_drop)
  ultimately show ?thesis using len by (intro exI conjI) (assumption | simp)+
qed

section \<open>Properties of the thumbnail size\<close>

text \<open>
  C10. For a loaded image of strictly positive natural width and height (and a canvas with
  a 2D context) the size computed for the thumbnail is finite, its larger side is 256 and it
  keeps the aspect ratio: for a width above the height it is 256 by 256 * height / width,
  otherwise 256 * width / height by 256.
\<close>

theorem thumbnail_size_aspect:
  assumes "0 < naturalWidth img" and "0 < naturalHeight img"
  shows "\<exists>w h. generateThumbnail (Some img) True = Inr (Fin w, Fin h) \<and>
           (if naturalWidth img > naturalHeight img
            then w = 256 \<and> h = 256 * real (naturalHeight img) / real (naturalWidth img)
            else h = 256 \<and> w = 256 * real (naturalWidth img) / real (naturalHeight img)) \<and>
           max w h = 256 \<and>
           w * real (naturalHeight img) = h * real (naturalWidth img)"
proof (cases "naturalWidth img > naturalHeight img")
  case True
  let ?h = "256 * real (naturalHeight img) / real (naturalWidth img)"
  have "?h \<le> 256" using True assms by (simp add: field_simps)
  then have "max 256 ?h = 256" by simp
  moreover have "generateThumbnail (Some img) True = Inr (Fin 256, Fin ?h)"
    using True assms by (simp add: generateThumbnail_def thumbnail_size_def THUMBNAIL_SIZE_def)
  moreover have "256 * real (naturalHeight img) = ?h * real (naturalWidth img)"
    using assms by simp
  ultimately show ?thesis using True by auto
next
  case False
  let ?w = "256 * real (naturalWidth img) / real (naturalHeight img)"
  have "?w \<le> 256" using False assms by (simp add: field_simps)
  then have "max ?w 256 = 256" by simp
  moreover have "generateThumbnail (Some img) True = Inr (Fin ?w, Fin 256)"
    using False assms by (simp add: generateThumbnail_def thumbnail_size_def THUMBNAIL_SIZE_def)
  moreover have "?w * real (naturalHeight img) = 256 * real (naturalWidth img)"
    using assms by simp
  ultimately show ?thesis using False by auto
qed

theorem thumbnail_size_aspect_witness:
  "0 < naturalWidth \<lparr>naturalWidth = 512, naturalHeight = 384\<rparr> \<and>
   0 < naturalHeight \<lparr>naturalWidth = 512, naturalHeight = 384\<rparr> \<and>
   generateThumbnail (Some \<lparr>naturalWidth = 512, naturalHeight = 384\<rparr>) True = Inr (Fin 256, Fin 192)"
proof -
  have "\<exists>w h. generateThumbnail (Some \<lparr>naturalWidth = 512, naturalHeight = 384\<rparr>) True
        = Inr (Fin w, Fin h) \<and>
      (w = 256 \<and> h = 256 * real (384::nat) / real (512::nat))"
    using thumbnail_size_aspect [of "\<lparr>naturalWidth = 512, naturalHeight = 384\<rparr>"] by simp
  then show ?thesis by auto
qed

end
